theory Spec2Isabelle
  imports Main "HOL-Library.Word" "HOL-Library.Signed_Division"
begin

section \<open>Machine integers\<close>

text \<open>
  The counters of \<^verbatim>\<open>Metrics\<close> are Go \<^verbatim>\<open>int64\<close>, and \<^verbatim>\<open>time.Duration\<close> is an
  \<^verbatim>\<open>int64\<close> count of nanoseconds: both are 64-bit words, whose \<open>+\<close> wraps as Go's
  does. Go's \<^verbatim>\<open>/\<close> on signed integers truncates towards zero, and \<^verbatim>\<open>>\<close> compares
  the signed values. Go's \<^verbatim>\<open>int\<close> (worker count, queue size, task id) takes part in
  comparisons only, apart from the loop counter of \<^verbatim>\<open>Start\<close> that stays below the
  worker count, and is an \<open>int\<close>.
\<close>

type_synonym int64 = "64 word"
type_synonym duration = "64 word"

definition int64_div :: "int64 \<Rightarrow> int64 \<Rightarrow> int64" where
  "int64_div a b = word_of_int (sint a sdiv sint b)"

definition int64_gt :: "int64 \<Rightarrow> int64 \<Rightarrow> bool" where
  "int64_gt a b \<longleftrightarrow> sint b < sint a"

section \<open>Channels\<close>

text \<open>
  A Go channel of capacity \<open>cap\<close>: the buffered values in order, whether it has been
  closed, the number of receivers parked on it (\<open>recvq\<close>), and the values that senders
  copied directly to a parked receiver (\<open>direct\<close>), which never enter the buffer.
\<close>

record 'a chan =
  cap :: nat
  buf :: "'a list"
  closed :: bool
  recvq :: nat
  direct :: "'a list"

datatype panic = SendOnClosedChannel | CloseOfClosedChannel | NilHandler

datatype 'a outcome = Returns 'a | Panics panic | Blocks

definition make_chan :: "nat \<Rightarrow> 'a chan" where
  "make_chan n = \<lparr>cap = n, buf = [], closed = False, recvq = 0, direct = []\<rparr>"

text \<open>
  A send can proceed at once when the channel is closed (it then panics), when a
  receiver is parked, or when the buffer has a free slot.
\<close>

definition send_ready :: "'a chan \<Rightarrow> bool" where
  "send_ready c \<longleftrightarrow> closed c \<or> 0 < recvq c \<or> length (buf c) < cap c"

definition chan_send :: "'a chan \<Rightarrow> 'a \<Rightarrow> panic + 'a chan" where
  "chan_send c v =
     (if closed c then Inl SendOnClosedChannel
      else if 0 < recvq c then Inr (c\<lparr>recvq := recvq c - 1, direct := direct c @ [v]\<rparr>)
      else Inr (c\<lparr>buf := buf c @ [v]\<rparr>))"

definition chan_close :: "'a chan \<Rightarrow> panic + 'a chan" where
  "chan_close c = (if closed c then Inl CloseOfClosedChannel else Inr (c\<lparr>closed := True\<rparr>))"

text \<open>A receiver that finds an open channel empty parks on it.\<close>

definition park_receiver :: "'a chan \<Rightarrow> 'a chan" where
  "park_receiver c = (if buf c = [] \<and> \<not> closed c then c\<lparr>recvq := recvq c + 1\<rparr> else c)"

section \<open>Data model\<close>

datatype pool_error = ErrPoolNotStarted | ErrPoolStopped | ErrQueueFull

type_synonym chan_id = nat
type_synonym addr = nat

text \<open>
  A task: the payload, the handler's output and the handler's error are the type
  parameters \<open>'p\<close>, \<open>'o\<close> and \<open>'e\<close> (Go's \<^verbatim>\<open>interface{}\<close> and \<^verbatim>\<open>error\<close>). A nil
  handler and a nil sink are \<open>None\<close>; a nil error is \<open>None\<close>.
\<close>

record ('p, 'o) Result =
  TaskID :: int
  ResultPayload :: 'p
  Output :: 'o
  Duration :: duration

record ('p, 'o, 'e) Task =
  ID :: int
  Payload :: 'p
  Handler :: "('p \<Rightarrow> 'o \<times> 'e option) option"
  ResultSink :: "chan_id option"
  ErrorSink :: "chan_id option"

record Metrics =
  TasksProcessed :: int64
  TasksFailed :: int64
  TotalDuration :: duration
  AverageDuration :: duration

text \<open>
  The pool holds a pointer to its \<^verbatim>\<open>Metrics\<close>: the metrics live in a store, and
  the pool holds their address. \<open>brk\<close> is the next address never handed out.
\<close>

record heap =
  cells :: "addr \<Rightarrow> Metrics"
  brk :: addr

datatype goroutine = Worker int | Dispatcher

record ('p, 'o, 'e) WorkerPool =
  workerCount :: int
  taskQueue :: "('p, 'o, 'e) Task chan"
  workerPool :: "int chan"
  ctx_done :: bool
  wg :: nat
  goroutines :: "goroutine list"
  started :: bool
  metrics :: addr

section \<open>Construction and accessors\<close>

definition zero_Metrics :: Metrics where
  "zero_Metrics = \<lparr>TasksProcessed = 0, TasksFailed = 0, TotalDuration = 0, AverageDuration = 0\<rparr>"

definition new_Metrics :: "heap \<Rightarrow> addr \<times> heap" where
  "new_Metrics h = (brk h, h\<lparr>cells := (cells h)(brk h := zero_Metrics), brk := brk h + 1\<rparr>)"

definition NewWorkerPool :: "heap \<Rightarrow> int \<Rightarrow> int \<Rightarrow> ('p, 'o, 'e) WorkerPool \<times> heap" where
  "NewWorkerPool h workerCount0 queueSize0 =
     (let workerCount1 = (if workerCount0 \<le> 0 then 1 else workerCount0);
          queueSize1 = (if queueSize0 < 0 then 0 else queueSize0);
          (m, h') = new_Metrics h
      in (\<lparr>workerCount = workerCount1,
           taskQueue = make_chan (nat queueSize1),
           workerPool = make_chan (nat workerCount1),
           ctx_done = False,
           wg = 0,
           goroutines = [],
           started = False,
           metrics = m\<rparr>, h'))"

definition GetWorkerCount :: "('p, 'o, 'e) WorkerPool \<Rightarrow> int" where
  "GetWorkerCount wp = workerCount wp"

definition IsRunning :: "('p, 'o, 'e) WorkerPool \<Rightarrow> bool" where
  "IsRunning wp = started wp"


section \<open>Metrics update\<close>

definition updateMetrics ::
  "('p, 'o, 'e) WorkerPool \<Rightarrow> 'e option \<Rightarrow> duration \<Rightarrow> heap \<Rightarrow> heap" where
  "updateMetrics wp err d h =
     (let m0 = cells h (metrics wp);
          m1 = m0\<lparr>TasksProcessed := TasksProcessed m0 + 1\<rparr>;
          m2 = m1\<lparr>TotalDuration := TotalDuration m1 + d\<rparr>;
          m3 = (if int64_gt (TasksProcessed m2) 0
                then m2\<lparr>AverageDuration := int64_div (TotalDuration m2) (TasksProcessed m2)\<rparr>
                else m2);
          m4 = (if err \<noteq> None then m3\<lparr>TasksFailed := TasksFailed m3 + 1\<rparr> else m3)
      in h\<lparr>cells := (cells h)(metrics wp := m4)\<rparr>)"

section \<open>Lifecycle\<close>

text \<open>
  \<^verbatim>\<open>Start\<close>, \<^verbatim>\<open>Stop\<close>, \<^verbatim>\<open>Submit\<close> and \<^verbatim>\<open>IsRunning\<close> hold the pool's lock
  \<^verbatim>\<open>mu\<close> for their whole body; here each is one atomic transition of the pool. The
  lock itself is modelled in the section on a submission racing a stop.

  The loop of \<^verbatim>\<open>Start\<close>: for each \<open>i\<close> from the given index up to the worker count,
  \<^verbatim>\<open>wg.Add(1)\<close> and spawn worker \<open>i\<close>.
\<close>

function spawn_workers :: "int \<Rightarrow> ('p, 'o, 'e) WorkerPool \<Rightarrow> ('p, 'o, 'e) WorkerPool" where
  "spawn_workers i wp =
     (if i < workerCount wp
      then spawn_workers (i + 1) (wp\<lparr>wg := wg wp + 1, goroutines := goroutines wp @ [Worker i]\<rparr>)
      else wp)"
  by pat_completeness auto
termination
  by (relation "measure (\<lambda>(i, wp). nat (workerCount wp - i))") auto

declare spawn_workers.simps [simp del]

definition Start :: "('p, 'o, 'e) WorkerPool \<Rightarrow> ('p, 'o, 'e) WorkerPool" where
  "Start wp =
     (if started wp then wp
      else let wp1 = spawn_workers 0 wp;
               wp2 = wp1\<lparr>wg := wg wp1 + 1, goroutines := goroutines wp1 @ [Dispatcher]\<rparr>
           in wp2\<lparr>started := True\<rparr>)"

text \<open>
  \<^verbatim>\<open>Stop\<close>: \<^verbatim>\<open>wg.Wait()\<close> returns once every spawned goroutine has called
  \<^verbatim>\<open>wg.Done()\<close>; whether they all do (a worker can be held by its handler or by a
  sink nobody reads) is the parameter \<open>units_exit\<close>.
\<close>

definition Stop :: "bool \<Rightarrow> ('p, 'o, 'e) WorkerPool \<Rightarrow> ('p, 'o, 'e) WorkerPool outcome" where
  "Stop units_exit wp =
     (if \<not> started wp then Returns wp
      else case chan_close (taskQueue wp) of
             Inl p \<Rightarrow> Panics p
           | Inr q \<Rightarrow>
               (let wp1 = wp\<lparr>taskQueue := q\<rparr>;
                    wp2 = wp1\<lparr>ctx_done := True\<rparr>
                in if \<not> units_exit then Blocks
                   else Returns (wp2\<lparr>wg := 0, goroutines := [], started := False\<rparr>)))"

text \<open>
  \<^verbatim>\<open>Submit\<close>: the \<^verbatim>\<open>select\<close> has a send on the task queue, a receive on
  \<^verbatim>\<open>ctx.Done()\<close> and a default. When both communications can proceed Go picks one
  of them at random: \<open>pick_send\<close> is that choice. \<open>submit_select\<close> is the
  \<^verbatim>\<open>select\<close> statement, \<open>Submit\<close> the whole body.
\<close>

definition submit_select ::
  "bool \<Rightarrow> ('p, 'o, 'e) WorkerPool \<Rightarrow> ('p, 'o, 'e) Task \<Rightarrow>
     (pool_error option \<times> ('p, 'o, 'e) WorkerPool) outcome" where
  "submit_select pick_send wp task =
     (if send_ready (taskQueue wp) \<and> (pick_send \<or> \<not> ctx_done wp)
      then (case chan_send (taskQueue wp) task of
              Inl p \<Rightarrow> Panics p
            | Inr q \<Rightarrow> Returns (None, wp\<lparr>taskQueue := q\<rparr>))
      else if ctx_done wp then Returns (Some ErrPoolStopped, wp)
      else Returns (Some ErrQueueFull, wp))"

definition Submit ::
  "bool \<Rightarrow> ('p, 'o, 'e) WorkerPool \<Rightarrow> ('p, 'o, 'e) Task \<Rightarrow>
     (pool_error option \<times> ('p, 'o, 'e) WorkerPool) outcome" where
  "Submit pick_send wp task =
     (if \<not> started wp then Returns (Some ErrPoolNotStarted, wp)
      else submit_select pick_send wp task)"

text \<open>
  A run of submissions with nothing in between: each call with its own choice, the
  errors returned in order, and the pool at the end.
\<close>

fun submit_all ::
  "('p, 'o, 'e) WorkerPool \<Rightarrow> (bool \<times> ('p, 'o, 'e) Task) list \<Rightarrow>
     (pool_error option list \<times> ('p, 'o, 'e) WorkerPool) outcome" where
  "submit_all wp [] = Returns ([], wp)"
| "submit_all wp (c # cs) =
     (case Submit (fst c) wp (snd c) of
        Returns (e, wp') \<Rightarrow>
          (case submit_all wp' cs of
             Returns (es, wp'') \<Rightarrow> Returns (e # es, wp'')
           | Panics p \<Rightarrow> Panics p
           | Blocks \<Rightarrow> Blocks)
      | Panics p \<Rightarrow> Panics p
      | Blocks \<Rightarrow> Blocks)"

section \<open>Task execution\<close>

text \<open>
  What a worker does with one task, as the trace of its effects in order: the handler
  call, the metrics update, and the send on a sink. A send on a sink completes when the
  sink takes the value. The duration is what \<^verbatim>\<open>time.Since(startTime)\<close> measured,
  given by the clock. Console logging is left out.
\<close>

datatype ('p, 'o, 'e) event =
    CallHandler 'p
  | UpdateMetrics "'e option" duration
  | SendError chan_id 'e
  | SendResult chan_id "('p, 'o) Result"

definition processTask ::
  "('p, 'o, 'e) WorkerPool \<Rightarrow> ('p, 'o, 'e) Task \<Rightarrow> int \<Rightarrow> duration \<Rightarrow> heap \<Rightarrow>
     (heap \<times> ('p, 'o, 'e) event list) outcome" where
  "processTask wp task workerID d h =
     (case Handler task of
        None \<Rightarrow> Panics NilHandler
      | Some handler \<Rightarrow>
          (let (result, err) = handler (Payload task);
               tr1 = [CallHandler (Payload task)];
               h1 = updateMetrics wp err d h;
               tr2 = tr1 @ [UpdateMetrics err d]
           in case err of
                Some e \<Rightarrow>
                  (case ErrorSink task of
                     Some c \<Rightarrow> Returns (h1, tr2 @ [SendError c e])
                   | None \<Rightarrow> Returns (h1, tr2))
              | None \<Rightarrow>
                  (case ResultSink task of
                     Some c \<Rightarrow>
                       Returns (h1, tr2 @ [SendResult c
                         \<lparr>TaskID = ID task, ResultPayload = Payload task,
                          Output = result, Duration = d\<rparr>])
                   | None \<Rightarrow> Returns (h1, tr2))))"

section \<open>Runs of metrics updates\<close>

fun update_all ::
  "('p, 'o, 'e) WorkerPool \<Rightarrow> ('e option \<times> duration) list \<Rightarrow> heap \<Rightarrow> heap" where
  "update_all wp [] h = h"
| "update_all wp (u # us) h = update_all wp us (updateMetrics wp (fst u) (snd u) h)"

fun failures :: "('e option \<times> duration) list \<Rightarrow> nat" where
  "failures [] = 0"
| "failures (u # us) = (if fst u \<noteq> None then 1 else 0) + failures us"

section \<open>A submission racing a stop\<close>













section \<open>Example values\<close>

definition empty_heap :: heap where
  "empty_heap = \<lparr>cells = (\<lambda>a. zero_Metrics), brk = 0\<rparr>"

definition example_task :: "(nat, nat, nat) Task" where
  "example_task =
     \<lparr>ID = 7, Payload = 3, Handler = Some (\<lambda>n. (n + 1, None)),
      ResultSink = Some 0, ErrorSink = Some 1\<rparr>"

definition failing_task :: "(nat, nat, nat) Task" where
  "failing_task =
     \<lparr>ID = 8, Payload = 3, Handler = Some (\<lambda>n. (0, Some n)),
      ResultSink = Some 0, ErrorSink = Some 1\<rparr>"

definition fresh_pool :: "(nat, nat, nat) WorkerPool" where
  "fresh_pool = fst (NewWorkerPool empty_heap 2 1)"

definition fresh_heap :: heap where
  "fresh_heap = snd (NewWorkerPool empty_heap 2 1 :: (nat, nat, nat) WorkerPool \<times> heap)"

definition example_pool :: "(nat, nat, nat) WorkerPool" where
  "example_pool = Start fresh_pool"

definition example_heap :: heap where
  "example_heap =
     empty_heap\<lparr>cells := (cells empty_heap)
       (0 := \<lparr>TasksProcessed = 2, TasksFailed = 1, TotalDuration = 10, AverageDuration = 5\<rparr>)\<rparr>"

text \<open>
  The metrics after \<open>2\<^sup>6\<^sup>3 - 1\<close> updates of one nanosecond each, none of them failed: the
  processed counter is at the largest \<^verbatim>\<open>int64\<close>.
\<close>

definition saturated_heap :: heap where
  "saturated_heap =
     empty_heap\<lparr>cells := (cells empty_heap)
       (0 := \<lparr>TasksProcessed = 0x7FFFFFFFFFFFFFFF, TasksFailed = 0,
              TotalDuration = 0x7FFFFFFFFFFFFFFF, AverageDuration = 1\<rparr>)\<rparr>"

text \<open>A run of \<open>2\<^sup>6\<^sup>3\<close> updates, none of them failed, each of duration 0.\<close>

definition overflow_run :: "(nat option \<times> duration) list" where
  "overflow_run = replicate (2 ^ 63) (None, 0)"

text \<open>The example pool after a Stop that has returned.\<close>

definition stopped_pool :: "(nat, nat, nat) WorkerPool" where
  "stopped_pool = fresh_pool\<lparr>taskQueue := (make_chan 1)\<lparr>closed := True\<rparr>, ctx_done := True\<rparr>"



text \<open>A run of \<open>2\<^sup>6\<^sup>3 - 1\<close> updates, none of them failed, each of one nanosecond.\<close>

definition saturating_run :: "(nat option \<times> duration) list" where
  "saturating_run = replicate (2 ^ 63 - 1) (None, 1)"

section \<open>Facts about 64-bit integers\<close>

lemma sint_word_of_int_64:
  fixes k :: int
  assumes "- (2 ^ 63) \<le> k" and "k < 2 ^ 63"
  shows "sint (word_of_int k :: int64) = k"
proof -
  have "sint (word_of_int k :: int64) = signed_take_bit (LENGTH(64) - 1) k"
    by (rule sint_sbintrunc')
  also have "\<dots> = signed_take_bit 63 k"
    by simp
  also have "\<dots> = k"
    using assms by (rule signed_take_bit_int_eq_self)
  finally show ?thesis .
qed

lemma div_pos_le_self:
  fixes a b :: int
  assumes "0 \<le> a" and "0 < b"
  shows "0 \<le> a div b \<and> a div b \<le> a"
proof -
  have "a div b \<le> a div 1"
    using assms by (intro zdiv_mono2) simp_all
  moreover have "0 \<le> a div b"
    using assms by (simp add: pos_imp_zdiv_nonneg_iff)
  ultimately show ?thesis by simp
qed

lemma sdiv_pos_range:
  fixes a b :: int
  assumes "0 < b"
  shows "(0 \<le> a \<longrightarrow> 0 \<le> a sdiv b \<and> a sdiv b \<le> a) \<and>
         (a < 0 \<longrightarrow> a \<le> a sdiv b \<and> a sdiv b \<le> 0)"
proof (cases "0 \<le> a")
  case True
  then have "a sdiv b = a div b \<or> a = 0"
    using assms by (auto simp: signed_divide_int_def sgn_if)
  then show ?thesis
    using True div_pos_le_self [OF True assms] by auto
next
  case False
  then have neg: "0 \<le> - a" by simp
  have "a sdiv b = - ((- a) div b)"
    using False assms by (simp add: signed_divide_int_def sgn_if)
  then show ?thesis
    using False div_pos_le_self [OF neg assms] by auto
qed

lemma int64_div_sint:
  assumes "int64_gt b 0"
  shows "sint (int64_div a b) = sint a sdiv sint b"
proof -
  have b: "0 < sint b" using assms by (simp add: int64_gt_def)
  have lo: "- (2 ^ 63) \<le> sint a" using sint_ge [of a] by simp
  have hi: "sint a < 2 ^ 63" using sint_lt [of a] by simp
  have "- (2 ^ 63) \<le> sint a sdiv sint b \<and> sint a sdiv sint b < 2 ^ 63"
    using sdiv_pos_range [OF b, of "sint a"] lo hi by (cases "0 \<le> sint a") auto
  then show ?thesis
    unfolding int64_div_def by (intro sint_word_of_int_64) simp_all
qed

lemma sint_add_no_overflow:
  fixes a b :: int64
  assumes "- (2 ^ 63) \<le> sint a + sint b" and "sint a + sint b < 2 ^ 63"
  shows "sint (a + b) = sint a + sint b"
proof -
  have "sint (a + b) = sint (word_of_int (sint a + sint b) :: int64)"
    by simp
  then show ?thesis
    using assms by (simp only: sint_word_of_int_64)
qed

lemma sint_of_nat_small:
  assumes "n < 2 ^ 63"
  shows "sint (of_nat n :: int64) = int n"
proof -
  have "(of_nat n :: int64) = word_of_int (int n)" by simp
  moreover have "sint (word_of_int (int n) :: int64) = int n"
    using assms by (intro sint_word_of_int_64) simp_all
  ultimately show ?thesis by simp
qed

section \<open>Construction\<close>

lemma NewWorkerPool_fields:
  "workerCount (fst (NewWorkerPool h wc qs)) = (if wc \<le> 0 then 1 else wc)"
  "taskQueue (fst (NewWorkerPool h wc qs)) = make_chan (nat (if qs < 0 then 0 else qs))"
  "ctx_done (fst (NewWorkerPool h wc qs)) = False"
  "started (fst (NewWorkerPool h wc qs)) = False"
  "wg (fst (NewWorkerPool h wc qs)) = 0"
  "goroutines (fst (NewWorkerPool h wc qs)) = []"
  "metrics (fst (NewWorkerPool h wc qs)) = brk h"
  "snd (NewWorkerPool h wc qs :: ('p, 'o, 'e) WorkerPool \<times> heap) =
     h\<lparr>cells := (cells h)(brk h := zero_Metrics), brk := brk h + 1\<rparr>"
  by (simp_all add: NewWorkerPool_def new_Metrics_def Let_def)


section \<open>Start\<close>

lemma spawn_workers_fields:
  "workerCount (spawn_workers i wp) = workerCount wp
   \<and> taskQueue (spawn_workers i wp) = taskQueue wp
   \<and> workerPool (spawn_workers i wp) = workerPool wp
   \<and> ctx_done (spawn_workers i wp) = ctx_done wp
   \<and> started (spawn_workers i wp) = started wp
   \<and> metrics (spawn_workers i wp) = metrics wp"
proof (induction i wp rule: spawn_workers.induct)
  case (1 i wp)
  show ?case
  proof (cases "i < workerCount wp")
    case True
    with 1 show ?thesis by (subst (1 2 3 4 5 6) spawn_workers.simps) simp
  next
    case False
    then show ?thesis by (subst (1 2 3 4 5 6) spawn_workers.simps) simp
  qed
qed

lemma spawn_workers_goroutines:
  "goroutines (spawn_workers i wp) = goroutines wp @ map Worker [i..workerCount wp - 1]
   \<and> wg (spawn_workers i wp) = wg wp + nat (workerCount wp - i)"
proof (induction i wp rule: spawn_workers.induct)
  case (1 i wp)
  show ?case
  proof (cases "i < workerCount wp")
    case True
    then have "[i..workerCount wp - 1] = i # [i + 1..workerCount wp - 1]"
      by (simp add: upto_rec1)
    with True 1 show ?thesis
      by (subst (1 2) spawn_workers.simps) (simp add: nat_diff_distrib)
  next
    case False
    then show ?thesis by (subst (1 2) spawn_workers.simps) simp
  qed
qed

lemma Start_started: "started wp \<Longrightarrow> Start wp = wp"
  by (simp add: Start_def)

lemma Start_fields:
  "started (Start wp)"
  "workerCount (Start wp) = workerCount wp"
  "taskQueue (Start wp) = taskQueue wp"
  "workerPool (Start wp) = workerPool wp"
  "ctx_done (Start wp) = ctx_done wp"
  "metrics (Start wp) = metrics wp"
  by (simp_all add: Start_def Let_def spawn_workers_fields)

lemma Start_goroutines:
  "\<not> started wp \<Longrightarrow>
   goroutines (Start wp) = goroutines wp @ map Worker [0..workerCount wp - 1] @ [Dispatcher]"
  "\<not> started wp \<Longrightarrow> wg (Start wp) = wg wp + nat (workerCount wp) + 1"
  by (simp_all add: Start_def Let_def spawn_workers_goroutines)

lemma fresh_pool_fields:
  "metrics fresh_pool = 0" "\<not> started fresh_pool" "\<not> ctx_done fresh_pool"
  "taskQueue fresh_pool = make_chan 1" "workerCount fresh_pool = 2"
  "wg fresh_pool = 0" "goroutines fresh_pool = []"
  "cells fresh_heap 0 = zero_Metrics"
  by (simp_all add: fresh_pool_def fresh_heap_def NewWorkerPool_fields empty_heap_def)

lemma example_pool_fields:
  "metrics example_pool = 0" "started example_pool" "\<not> ctx_done example_pool"
  "taskQueue example_pool = make_chan 1" "workerCount example_pool = 2"
  by (simp_all add: example_pool_def Start_fields fresh_pool_fields)

section \<open>Metrics\<close>

lemma updateMetrics_cell:
  "cells (updateMetrics wp err d h) (metrics wp) =
     (cells h (metrics wp))
       \<lparr>TasksProcessed := TasksProcessed (cells h (metrics wp)) + 1,
        TotalDuration := TotalDuration (cells h (metrics wp)) + d,
        AverageDuration :=
          (if int64_gt (TasksProcessed (cells h (metrics wp)) + 1) 0
           then int64_div (TotalDuration (cells h (metrics wp)) + d)
                  (TasksProcessed (cells h (metrics wp)) + 1)
           else AverageDuration (cells h (metrics wp))),
        TasksFailed :=
          (if err \<noteq> None then TasksFailed (cells h (metrics wp)) + 1
           else TasksFailed (cells h (metrics wp)))\<rparr>"
  by (simp add: updateMetrics_def Let_def)


lemma updateMetrics_brk: "brk (updateMetrics wp err d h) = brk h"
  by (simp add: updateMetrics_def Let_def)

lemma updateMetrics_processed:
  "TasksProcessed (cells (updateMetrics wp err d h) (metrics wp)) =
     TasksProcessed (cells h (metrics wp)) + 1"
  by (simp add: updateMetrics_cell)

lemma updateMetrics_failed:
  "TasksFailed (cells (updateMetrics wp err d h) (metrics wp)) =
     TasksFailed (cells h (metrics wp)) + (if err \<noteq> None then 1 else 0)"
  by (simp add: updateMetrics_cell)

lemma update_all_processed:
  "TasksProcessed (cells (update_all wp us h) (metrics wp)) =
     TasksProcessed (cells h (metrics wp)) + of_nat (length us)"
  by (induction us arbitrary: h) (simp_all add: updateMetrics_processed)

lemma update_all_failed:
  "TasksFailed (cells (update_all wp us h) (metrics wp)) =
     TasksFailed (cells h (metrics wp)) + of_nat (failures us)"
  by (induction us arbitrary: h) (simp_all add: updateMetrics_failed)


lemma failures_le_length: "failures us \<le> length us"
  by (induction us) simp_all

lemma failures_replicate_None: "failures (replicate n (None, d)) = 0"
  by (induction n) simp_all

lemma overflow_run_facts:
  "length overflow_run = 2 ^ 63" "failures overflow_run = 0"
  unfolding overflow_run_def by (simp_all only: length_replicate failures_replicate_None)

text \<open>
  The state with the processed counter at the largest \<^verbatim>\<open>int64\<close> is the one a fresh
  pool reaches by \<open>2\<^sup>6\<^sup>3 - 1\<close> updates of one nanosecond each.
\<close>

lemma update_all_snoc:
  "update_all wp (us @ [u]) h = updateMetrics wp (fst u) (snd u) (update_all wp us h)"
  by (induction us arbitrary: h) simp_all

lemma int64_div_self:
  assumes "int64_gt a 0"
  shows "int64_div a a = 1"
proof -
  have "0 < sint a" using assms by (simp add: int64_gt_def)
  then have "sint a sdiv sint a = 1"
    by (simp add: signed_divide_int_def sgn_if)
  then show ?thesis by (simp add: int64_div_def)
qed

lemma int64_gt_of_nat:
  assumes "0 < n" and "n < 2 ^ 63"
  shows "int64_gt (of_nat n) 0"
  using assms by (simp add: int64_gt_def sint_of_nat_small)

lemma unit_run_metrics:
  assumes "cells h (metrics wp) = zero_Metrics"
  shows "n < 2 ^ 63 \<Longrightarrow>
    cells (update_all wp (replicate n (None, 1)) h) (metrics wp) =
      \<lparr>TasksProcessed = of_nat n, TasksFailed = 0, TotalDuration = of_nat n,
       AverageDuration = (if n = 0 then 0 else 1)\<rparr>"
proof (induction n)
  case 0
  then show ?case by (simp add: assms zero_Metrics_def)
next
  case (Suc n)
  have run: "replicate (Suc n) (None :: 'c option, 1 :: duration) = replicate n (None, 1) @ [(None, 1)]"
    by (simp add: replicate_append_same)
  have prev: "cells (update_all wp (replicate n (None, 1)) h) (metrics wp) =
      \<lparr>TasksProcessed = of_nat n, TasksFailed = 0, TotalDuration = of_nat n,
       AverageDuration = (if n = 0 then 0 else 1)\<rparr>"
    using Suc by simp
  have pos: "int64_gt (of_nat n + 1) 0"
    using int64_gt_of_nat [of "Suc n"] Suc.prems by (simp add: add.commute)
  show ?case
    unfolding run update_all_snoc
    by (simp add: updateMetrics_cell prev pos int64_div_self)
qed

lemma saturated_reachable:
  "cells (update_all example_pool saturating_run fresh_heap) (metrics example_pool) =
     cells saturated_heap (metrics example_pool)"
proof -
  have z: "cells fresh_heap (metrics example_pool) = zero_Metrics"
    by (simp add: example_pool_fields fresh_pool_fields)
  have "(2 :: nat) ^ 63 - 1 < 2 ^ 63"
    by simp
  then show ?thesis
    unfolding saturating_run_def
    using unit_run_metrics [OF z, of "2 ^ 63 - 1"]
    by (simp add: saturated_heap_def example_pool_fields empty_heap_def)
qed

text \<open>
  C4 (amended). One metrics update adds 1 to the processed counter and the duration to
  the total, both in wrapping 64-bit arithmetic, adds 1 to the failed counter when the
  error is not nil and leaves it otherwise, and sets the average to the new total
  divided by the new processed counter when that counter is positive, leaving the
  average as it was otherwise. Short of the largest \<^verbatim>\<open>int64\<close> the counters grow by
  exactly 1 as integers, the total grows by the duration when the sum is in range, and
  the division is the truncating division of the signed values.
\<close>

theorem updateMetrics_effect:
  fixes wp :: "('p, 'o, 'e) WorkerPool" and err :: "'e option" and d :: duration and h :: heap
  defines "m \<equiv> cells h (metrics wp)"
    and "m' \<equiv> cells (updateMetrics wp err d h) (metrics wp)"
  shows "TasksProcessed m' = TasksProcessed m + 1
       \<and> TotalDuration m' = TotalDuration m + d
       \<and> TasksFailed m' = (if err \<noteq> None then TasksFailed m + 1 else TasksFailed m)
       \<and> AverageDuration m' =
           (if int64_gt (TasksProcessed m') 0
            then int64_div (TotalDuration m') (TasksProcessed m')
            else AverageDuration m)
       \<and> (sint (TasksProcessed m) < 2 ^ 63 - 1 \<longrightarrow>
            sint (TasksProcessed m') = sint (TasksProcessed m) + 1)
       \<and> (err \<noteq> None \<and> sint (TasksFailed m) < 2 ^ 63 - 1 \<longrightarrow>
            sint (TasksFailed m') = sint (TasksFailed m) + 1)
       \<and> (- (2 ^ 63) \<le> sint (TotalDuration m) + sint d \<and>
          sint (TotalDuration m) + sint d < 2 ^ 63 \<longrightarrow>
            sint (TotalDuration m') = sint (TotalDuration m) + sint d)
       \<and> (int64_gt (TasksProcessed m') 0 \<longrightarrow>
            sint (AverageDuration m') = sint (TotalDuration m') sdiv sint (TasksProcessed m'))"
proof -
  have succ: "sint (x + 1) = sint x + 1" if "sint x < 2 ^ 63 - 1" for x :: int64
  proof -
    have "- (2 ^ 63) \<le> sint x" using sint_ge [of x] by simp
    then show ?thesis
      using that sint_add_no_overflow [of x 1] by simp
  qed
  have words: "TasksProcessed m' = TasksProcessed m + 1"
    "TotalDuration m' = TotalDuration m + d"
    "TasksFailed m' = (if err \<noteq> None then TasksFailed m + 1 else TasksFailed m)"
    "AverageDuration m' =
       (if int64_gt (TasksProcessed m') 0
        then int64_div (TotalDuration m') (TasksProcessed m')
        else AverageDuration m)"
    unfolding m_def m'_def by (simp_all add: updateMetrics_cell)
  have avg: "sint (AverageDuration m') = sint (TotalDuration m') sdiv sint (TasksProcessed m')"
    if "int64_gt (TasksProcessed m') 0"
    using that words(4) by (simp add: int64_div_sint)
  have total: "sint (TotalDuration m') = sint (TotalDuration m) + sint d"
    if "- (2 ^ 63) \<le> sint (TotalDuration m) + sint d"
      and "sint (TotalDuration m) + sint d < 2 ^ 63"
    using that words(2) by (simp add: sint_add_no_overflow)
  show ?thesis
    using words succ [of "TasksProcessed m"] succ [of "TasksFailed m"] avg total
    by simp
qed

theorem updateMetrics_effect_witness:
  "sint (TasksProcessed (cells example_heap (metrics example_pool))) < 2 ^ 63 - 1
   \<and> Some (4::nat) \<noteq> None
   \<and> sint (TasksFailed (cells example_heap (metrics example_pool))) < 2 ^ 63 - 1
   \<and> - (2 ^ 63) \<le> sint (TotalDuration (cells example_heap (metrics example_pool))) + sint (5 :: duration)
   \<and> sint (TotalDuration (cells example_heap (metrics example_pool))) + sint (5 :: duration) < 2 ^ 63
   \<and> int64_gt (TasksProcessed
        (cells (updateMetrics example_pool (Some 4) 5 example_heap) (metrics example_pool))) 0
   \<and> cells (updateMetrics example_pool (Some 4) 5 example_heap) (metrics example_pool) =
       \<lparr>TasksProcessed = 3, TasksFailed = 2, TotalDuration = 15, AverageDuration = 5\<rparr>
   \<and> sint (AverageDuration
        (cells (updateMetrics example_pool (Some 4) 5 example_heap) (metrics example_pool))) =
       15 sdiv 3"
  using updateMetrics_effect [of example_pool "Some 4" 5 example_heap]
  by (simp add: updateMetrics_def Let_def example_pool_fields example_heap_def empty_heap_def
      int64_gt_def int64_div_def signed_divide_int_def)

text \<open>
  C4 as stated fails where the processed counter is at the largest \<^verbatim>\<open>int64\<close>: the
  increment wraps to the least \<^verbatim>\<open>int64\<close>, the guard \<^verbatim>\<open>TasksProcessed > 0\<close> is
  false, and the average stays 1 while the total divided by the new counter is 0.
\<close>

theorem updateMetrics_average_counterexample:
  "AverageDuration
     (cells (updateMetrics example_pool None 0 saturated_heap) (metrics example_pool)) = 1
   \<and> int64_div
       (TotalDuration
          (cells (updateMetrics example_pool None 0 saturated_heap) (metrics example_pool)))
       (TasksProcessed
          (cells (updateMetrics example_pool None 0 saturated_heap) (metrics example_pool))) = 0
   \<and> sint (TasksProcessed
        (cells (updateMetrics example_pool None 0 saturated_heap) (metrics example_pool))) =
       - (2 ^ 63)"
  by (simp add: updateMetrics_def Let_def example_pool_fields saturated_heap_def empty_heap_def
      int64_gt_def int64_div_def signed_divide_int_def)

text \<open>
  C10 (amended). From the zero metrics of a fresh pool, after any run of updates the
  processed counter is the number of updates and the failed counter the number of
  updates with a non-nil error, both modulo \<open>2\<^sup>6\<^sup>4\<close>; for a run of fewer than \<open>2\<^sup>6\<^sup>3\<close>
  updates they are these numbers exactly, and \<open>0 \<le> TasksFailed \<le> TasksProcessed\<close>.
\<close>

theorem metrics_invariant:
  fixes h :: heap and wc qs :: int and us :: "('e option \<times> duration) list"
  defines "wp \<equiv> fst (NewWorkerPool h wc qs :: ('p, 'o, 'e) WorkerPool \<times> heap)"
    and "h0 \<equiv> snd (NewWorkerPool h wc qs :: ('p, 'o, 'e) WorkerPool \<times> heap)"
  defines "m \<equiv> cells (update_all wp us h0) (metrics wp)"
  shows "TasksProcessed m = of_nat (length us)
       \<and> TasksFailed m = of_nat (failures us)
       \<and> (length us < 2 ^ 63 \<longrightarrow>
            sint (TasksProcessed m) = int (length us)
          \<and> sint (TasksFailed m) = int (failures us)
          \<and> 0 \<le> sint (TasksFailed m)
          \<and> sint (TasksFailed m) \<le> sint (TasksProcessed m))"
proof -
  have zero: "cells h0 (metrics wp) = zero_Metrics"
    unfolding wp_def h0_def by (simp add: NewWorkerPool_fields)
  have p: "TasksProcessed m = of_nat (length us)"
    unfolding m_def by (simp add: update_all_processed zero zero_Metrics_def)
  have f: "TasksFailed m = of_nat (failures us)"
    unfolding m_def by (simp add: update_all_failed zero zero_Metrics_def)
  have "sint (TasksProcessed m) = int (length us) \<and> sint (TasksFailed m) = int (failures us)"
    if "length us < 2 ^ 63"
  proof -
    have "failures us < 2 ^ 63"
      using that failures_le_length [of us] by simp
    then show ?thesis
      using that p f by (simp add: sint_of_nat_small)
  qed
  then show ?thesis
    using p f failures_le_length [of us] by simp
qed

theorem metrics_invariant_witness:
  "length [(None, 3), (Some (1::nat), 4), (None, 5 :: duration)] < 2 ^ 63
   \<and> sint (TasksProcessed (cells
        (update_all fresh_pool [(None, 3), (Some 1, 4), (None, 5)] fresh_heap)
        (metrics fresh_pool))) = 3
   \<and> sint (TasksFailed (cells
        (update_all fresh_pool [(None, 3), (Some 1, 4), (None, 5)] fresh_heap)
        (metrics fresh_pool))) = 1"
  using metrics_invariant [where ?'p = nat and ?'o = nat
      and us = "[(None, 3), (Some (1::nat), 4), (None, 5)]" and h = empty_heap
      and wc = 2 and qs = 1]
  by (simp add: fresh_pool_def fresh_heap_def)

text \<open>
  C10 as stated fails for a run of \<open>2\<^sup>6\<^sup>3\<close> updates: the processed counter has wrapped
  to the least \<^verbatim>\<open>int64\<close>, below the failed counter 0.
\<close>

theorem metrics_invariant_counterexample:
  "sint (TasksProcessed (cells (update_all fresh_pool overflow_run fresh_heap)
      (metrics fresh_pool))) = - (2 ^ 63)
   \<and> sint (TasksFailed (cells (update_all fresh_pool overflow_run fresh_heap)
      (metrics fresh_pool))) = 0
   \<and> \<not> sint (TasksFailed (cells (update_all fresh_pool overflow_run fresh_heap)
          (metrics fresh_pool)))
       \<le> sint (TasksProcessed (cells (update_all fresh_pool overflow_run fresh_heap)
          (metrics fresh_pool)))"
  using update_all_processed [of fresh_pool overflow_run fresh_heap]
    update_all_failed [of fresh_pool overflow_run fresh_heap]
  by (simp add: overflow_run_facts fresh_pool_fields zero_Metrics_def)

section \<open>Start is idempotent\<close>

text \<open>
  C6. Start on a started pool is a no-op: the pool is returned as it is, so a second
  Start leaves the state of the first, the worker count and the spawned goroutines
  unchanged; the one effective Start of a pool spawns the workers \<open>0\<close> to
  \<open>workerCount - 1\<close> and one dispatcher.
\<close>

theorem Start_idempotent:
  "(started wp \<longrightarrow> Start wp = wp)
   \<and> Start (Start wp) = Start wp
   \<and> GetWorkerCount (Start (Start wp)) = GetWorkerCount wp
   \<and> goroutines (Start (Start wp)) = goroutines (Start wp)
   \<and> wg (Start (Start wp)) = wg (Start wp)
   \<and> (\<not> started wp \<longrightarrow>
        goroutines (Start (Start wp)) =
          goroutines wp @ map Worker [0..workerCount wp - 1] @ [Dispatcher])"
proof -
  have twice: "Start (Start wp) = Start wp"
    by (rule Start_started) (rule Start_fields)
  show ?thesis
    by (simp add: twice Start_started Start_fields Start_goroutines GetWorkerCount_def)
qed

theorem Start_idempotent_witness:
  "started example_pool
   \<and> Start example_pool = example_pool
   \<and> \<not> started fresh_pool
   \<and> goroutines (Start (Start fresh_pool)) = [Worker 0, Worker 1, Dispatcher]
   \<and> GetWorkerCount (Start (Start fresh_pool)) = 2"
  using Start_idempotent [of example_pool] Start_idempotent [of fresh_pool]
  by (auto simp: example_pool_fields fresh_pool_fields GetWorkerCount_def upto_rec1)

section \<open>Stop on a pool that is not running\<close>

lemma Stop_not_running: "\<not> started wp \<Longrightarrow> Stop units_exit wp = Returns wp"
  by (simp add: Stop_def)

lemma Stop_Returns_not_started:
  "Stop units_exit wp = Returns wp' \<Longrightarrow> \<not> started wp'"
  by (auto simp: Stop_def Let_def split: if_splits sum.splits)

lemma Stop_example_pool: "Stop True example_pool = Returns stopped_pool"
  by (simp add: Stop_def Let_def chan_close_def example_pool_fields make_chan_def
      example_pool_def Start_def spawn_workers_fields fresh_pool_fields stopped_pool_def)

text \<open>
  C7. Stop on a pool that was never started, or that a Stop has already stopped, returns
  at once, whether or not any goroutine would exit, and changes nothing: the queue is
  not closed, the cancellation is not raised, and the pool is not running.
\<close>

theorem Stop_without_Start:
  fixes h :: heap and wc qs :: int and wp wp' :: "('p, 'o, 'e) WorkerPool"
  defines "new \<equiv> fst (NewWorkerPool h wc qs :: ('p, 'o, 'e) WorkerPool \<times> heap)"
  shows "Stop units_exit new = Returns new
       \<and> IsRunning new = False
       \<and> closed (taskQueue new) = False
       \<and> ctx_done new = False
       \<and> (\<not> IsRunning wp \<longrightarrow> Stop units_exit wp = Returns wp)
       \<and> (Stop units_exit wp = Returns wp' \<longrightarrow>
            Stop units_exit' wp' = Returns wp' \<and> IsRunning wp' = False)"
  unfolding new_def
  by (auto simp: Stop_not_running NewWorkerPool_fields IsRunning_def make_chan_def
      dest: Stop_Returns_not_started)

theorem Stop_without_Start_witness:
  "\<not> IsRunning fresh_pool
   \<and> Stop False fresh_pool = Returns fresh_pool
   \<and> Stop True fresh_pool = Returns fresh_pool
   \<and> Stop True example_pool = Returns stopped_pool
   \<and> Stop False stopped_pool = Returns stopped_pool"
  using Stop_without_Start [where units_exit = False and wp = fresh_pool]
    Stop_without_Start [where units_exit = True and wp = fresh_pool]
    Stop_without_Start [where units_exit = True and wp = example_pool and units_exit' = False
      and wp' = stopped_pool]
    Stop_example_pool
  by (simp add: IsRunning_def fresh_pool_fields)

section \<open>Submit\<close>

lemma Submit_not_started:
  "\<not> started wp \<Longrightarrow> Submit pick_send wp task = Returns (Some ErrPoolNotStarted, wp)"
  by (simp add: Submit_def)

text \<open>
  C2. Submit on a pool that has never been started, or on the pool that a completed Stop
  leaves, returns the "not started" error and leaves the pool, its queue included, as it
  was.
\<close>

theorem Submit_before_Start_or_after_Stop:
  fixes h :: heap and wc qs :: int and wp wp' :: "('p, 'o, 'e) WorkerPool"
  defines "new \<equiv> fst (NewWorkerPool h wc qs :: ('p, 'o, 'e) WorkerPool \<times> heap)"
  shows "Submit pick_send new task = Returns (Some ErrPoolNotStarted, new)
       \<and> (\<not> started wp \<longrightarrow> Submit pick_send wp task = Returns (Some ErrPoolNotStarted, wp))
       \<and> (Stop units_exit wp = Returns wp' \<longrightarrow>
            Submit pick_send wp' task = Returns (Some ErrPoolNotStarted, wp'))"
  unfolding new_def
  by (auto simp: Submit_not_started NewWorkerPool_fields dest: Stop_Returns_not_started)

theorem Submit_before_Start_or_after_Stop_witness:
  "\<not> started fresh_pool
   \<and> Submit True fresh_pool example_task = Returns (Some ErrPoolNotStarted, fresh_pool)
   \<and> Stop True example_pool = Returns stopped_pool
   \<and> Submit True stopped_pool example_task = Returns (Some ErrPoolNotStarted, stopped_pool)
   \<and> buf (taskQueue stopped_pool) = []"
  using Submit_before_Start_or_after_Stop [where wp = fresh_pool and pick_send = True
      and task = example_task]
    Submit_before_Start_or_after_Stop [where wp = example_pool and units_exit = True
      and wp' = stopped_pool and pick_send = True and task = example_task]
    Stop_example_pool
  by (simp add: fresh_pool_fields stopped_pool_def make_chan_def)

section \<open>Filling the queue\<close>

lemma Submit_enqueues:
  assumes "started wp" and "\<not> ctx_done wp" and "\<not> closed (taskQueue wp)"
    and "recvq (taskQueue wp) = 0" and "length (buf (taskQueue wp)) < cap (taskQueue wp)"
  shows "Submit pick_send wp task =
    Returns (None, wp\<lparr>taskQueue := (taskQueue wp)\<lparr>buf := buf (taskQueue wp) @ [task]\<rparr>\<rparr>)"
  using assms by (simp add: Submit_def submit_select_def send_ready_def chan_send_def)

lemma Submit_full:
  assumes "started wp" and "\<not> ctx_done wp" and "\<not> closed (taskQueue wp)"
    and "recvq (taskQueue wp) = 0" and "length (buf (taskQueue wp)) = cap (taskQueue wp)"
  shows "Submit pick_send wp task = Returns (Some ErrQueueFull, wp)"
  using assms by (simp add: Submit_def submit_select_def send_ready_def)

lemma submit_all_fills:
  assumes "started wp" and "\<not> ctx_done wp" and "\<not> closed (taskQueue wp)"
    and "recvq (taskQueue wp) = 0"
    and "length (buf (taskQueue wp)) + length cs \<le> cap (taskQueue wp)"
  shows "submit_all wp cs =
    Returns (replicate (length cs) None,
      wp\<lparr>taskQueue := (taskQueue wp)\<lparr>buf := buf (taskQueue wp) @ map snd cs\<rparr>\<rparr>)"
  using assms
proof (induction cs arbitrary: wp)
  case Nil
  then show ?case by simp
next
  case (Cons c cs)
  let ?wp' = "wp\<lparr>taskQueue := (taskQueue wp)\<lparr>buf := buf (taskQueue wp) @ [snd c]\<rparr>\<rparr>"
  have step: "Submit (fst c) wp (snd c) = Returns (None, ?wp')"
    using Cons.prems by (intro Submit_enqueues) simp_all
  have rest: "submit_all ?wp' cs =
    Returns (replicate (length cs) None,
      ?wp'\<lparr>taskQueue := (taskQueue ?wp')\<lparr>buf := buf (taskQueue ?wp') @ map snd cs\<rparr>\<rparr>)"
    using Cons.prems by (intro Cons.IH) simp_all
  show ?case
    by (simp add: step rest)
qed

lemma submit_all_append:
  "submit_all wp (cs @ ds) =
     (case submit_all wp cs of
        Returns (es, wp') \<Rightarrow>
          (case submit_all wp' ds of
             Returns (es', wp'') \<Rightarrow> Returns (es @ es', wp'')
           | Panics p \<Rightarrow> Panics p
           | Blocks \<Rightarrow> Blocks)
      | Panics p \<Rightarrow> Panics p
      | Blocks \<Rightarrow> Blocks)"
  by (induction cs arbitrary: wp) (auto split: outcome.splits prod.splits)

text \<open>
  C3. On a started pool built with queue size \<open>K\<close>, with no receiver parked on the
  queue and nothing taken from it in between, a run of \<open>K + 1\<close> submissions returns:
  each of the first \<open>K\<close> calls returns nil and its task is in the queue, in order; the
  last call returns the "queue full" error, and its task is not in the queue. A
  negative \<open>K\<close> counts as 0.
\<close>

theorem Submit_queue_full:
  fixes h :: heap and wc K :: int and cs :: "(bool \<times> ('p, 'o, 'e) Task) list"
  defines "wp \<equiv> Start (fst (NewWorkerPool h wc K :: ('p, 'o, 'e) WorkerPool \<times> heap))"
  assumes "length cs = nat K"
  shows "submit_all wp (cs @ [c]) =
    Returns (replicate (nat K) None @ [Some ErrQueueFull],
      wp\<lparr>taskQueue := (taskQueue wp)\<lparr>buf := map snd cs\<rparr>\<rparr>)"
proof -
  let ?full = "wp\<lparr>taskQueue := (taskQueue wp)\<lparr>buf := map snd cs\<rparr>\<rparr>"
  have q: "taskQueue wp = make_chan (nat K)"
    unfolding wp_def by (simp add: Start_fields NewWorkerPool_fields)
  have flags: "started wp" "\<not> ctx_done wp"
    unfolding wp_def by (simp_all add: Start_fields NewWorkerPool_fields)
  have first: "submit_all wp cs = Returns (replicate (nat K) None, ?full)"
    using submit_all_fills [of wp cs] flags assms(2) by (simp add: q make_chan_def)
  have last: "Submit (fst c) ?full (snd c) = Returns (Some ErrQueueFull, ?full)"
    using flags assms(2) by (intro Submit_full) (simp_all add: q make_chan_def)
  show ?thesis
    by (simp add: submit_all_append first last)
qed

theorem Submit_queue_full_witness:
  "length [(True, example_task)] = nat 1
   \<and> submit_all example_pool [(True, example_task), (False, failing_task)] =
       Returns ([None, Some ErrQueueFull],
         example_pool\<lparr>taskQueue := (make_chan 1)\<lparr>buf := [example_task]\<rparr>\<rparr>)"
  using Submit_queue_full [where cs = "[(True, example_task)]" and K = 1 and h = empty_heap
      and wc = 2 and c = "(False, failing_task)"]
  by (simp add: example_pool_def fresh_pool_def
      example_pool_fields [unfolded example_pool_def fresh_pool_def])

text \<open>
  With a receiver parked on the queue the picture changes: the send is handed to the
  receiver, also on a queue of capacity 0.
\<close>

lemma Submit_rendezvous:
  assumes "started wp" and "\<not> ctx_done wp" and "\<not> closed (taskQueue wp)"
    and "buf (taskQueue wp) = []"
  shows "Submit pick_send (wp\<lparr>taskQueue := park_receiver (taskQueue wp)\<rparr>) task =
    Returns (None, wp\<lparr>taskQueue := (taskQueue wp)\<lparr>direct := direct (taskQueue wp) @ [task]\<rparr>\<rparr>)"
  using assms
  by (simp add: Submit_def submit_select_def send_ready_def chan_send_def park_receiver_def)

section \<open>Snapshots of the metrics\<close>





section \<open>What a worker does with a task\<close>



lemma processTask_nil_handler:
  "Handler task = None \<Longrightarrow> processTask wp task workerID d h = Panics NilHandler"
  by (simp add: processTask_def)

section \<open>A submission racing a stop never sees the cancellation\<close>






















lemma Submit_ErrPoolStopped_iff:
  "Submit pick_send wp task = Returns (Some ErrPoolStopped, wp') \<longleftrightarrow>
     started wp \<and> ctx_done wp \<and> \<not> (send_ready (taskQueue wp) \<and> pick_send) \<and> wp' = wp"
  by (auto simp: Submit_def submit_select_def split: sum.splits)


lemma Submit_after_restart:
  "Start stopped_pool = stopped_pool\<lparr>wg := 3, goroutines := [Worker 0, Worker 1, Dispatcher],
      started := True\<rparr>"
  "Submit False (Start stopped_pool) example_task =
     Returns (Some ErrPoolStopped, Start stopped_pool)"
  "Submit True (Start stopped_pool) example_task = Panics SendOnClosedChannel"
proof -
  have fields: "\<not> started stopped_pool" "workerCount stopped_pool = 2"
    "wg stopped_pool = 0" "goroutines stopped_pool = []" "ctx_done stopped_pool"
    "taskQueue stopped_pool = (make_chan 1)\<lparr>closed := True\<rparr>"
    by (simp_all add: stopped_pool_def fresh_pool_fields)
  have g: "goroutines (Start stopped_pool) = [Worker 0, Worker 1, Dispatcher]"
    "wg (Start stopped_pool) = 3"
    using Start_goroutines [of stopped_pool] by (simp_all add: fields upto_rec1)
  show "Start stopped_pool = stopped_pool\<lparr>wg := 3, goroutines := [Worker 0, Worker 1, Dispatcher],
      started := True\<rparr>"
    using g Start_fields [of stopped_pool]
    by (intro WorkerPool.equality) simp_all
  show "Submit False (Start stopped_pool) example_task =
     Returns (Some ErrPoolStopped, Start stopped_pool)"
    by (simp add: Submit_def submit_select_def Start_fields fields)
  show "Submit True (Start stopped_pool) example_task = Panics SendOnClosedChannel"
    by (simp add: Submit_def submit_select_def Start_fields fields send_ready_def
        chan_send_def make_chan_def)
qed







end
